theory Spec2Isabelle
  imports Complex_Main "HOL-Library.AList" "HOL-Library.Sublist"
begin

section \<open>Conventions of the embedding\<close>

text \<open>
  The repository is a React front end: an \<open>OrderBook\<close> component and the hook
  \<open>useBinanceSocket\<close> that feeds it. Both are event driven and single threaded, so each
  handler of the source becomes a function from the state before the handler runs to the
  state after it.

  A JavaScript \<open>number\<close> is embedded as an exact rational (\<^typ>\<open>rat\<close>): the rounding of
  IEEE-754 doubles, \<open>NaN\<close> and the infinities are not represented. A \<open>useRef\<close> cell is a
  field of the state record that carries the cell's name.
\<close>

section \<open>The ledger operations of \<open>lib/orderbook\<close>\<close>

text \<open>
  The component imports \<open>applyDepthDelta\<close> and \<open>mapToSortedArray\<close> from \<open>../lib/orderbook\<close>.
  That module is not among the source files, so this section follows the specification
  (sections 3, 4.1, 4.2 and 6) instead.
\<close>

text \<open>
  Modelled from the spec: a ledger maps a price to the quantity resting there (section 3),
  one entry per price. The entries are kept in insertion order, as a JavaScript \<open>Map\<close>
  keeps them. (The component declares its two ledgers as \<open>Map<string, number>\<close>; how
  \<open>lib/orderbook\<close> turns the key into the \<open>price\<close> of a row is not shown, and the
  specification keys the ledger by the price itself.)
\<close>
type_synonym ledger = "(rat \<times> rat) list"

datatype side = Bids | Asks

record OrderRow =
  price :: rat
  qty :: rat
  cum :: rat

text \<open>
  Modelled from the spec: the digits of a decimal numeral, for the decoding of the
  \<open>priceAsString\<close> and \<open>quantityAsString\<close> fields below, which \<open>lib/orderbook\<close> performs.
\<close>
definition is_digit :: "char \<Rightarrow> bool" where
  "is_digit c = (c \<in> set ''0123456789'')"

text \<open>Modelled from the spec: the value of a digit; \<open>0\<close> is character 48.\<close>
definition digit_value :: "char \<Rightarrow> nat" where
  "digit_value c = of_char c - 48"

text \<open>Modelled from the spec: the number that a string of digits writes in base ten.\<close>
definition digits_value :: "string \<Rightarrow> nat" where
  "digits_value ds = foldl (\<lambda>n c. 10 * n + digit_value c) 0 ds"

text \<open>
  Modelled from the spec: an unsigned decimal, digits optionally followed by a point and
  more digits; \<open>None\<close> when the string is not of that form.
\<close>
definition parse_unsigned :: "string \<Rightarrow> rat option" where
  "parse_unsigned s =
     (let ip = takeWhile is_digit s; rest = dropWhile is_digit s
      in if ip = [] then None
         else (case rest of
                 [] \<Rightarrow> Some (of_nat (digits_value ip))
               | c # fp \<Rightarrow>
                   if c = CHR ''.'' \<and> fp \<noteq> [] \<and> list_all is_digit fp
                   then Some (of_nat (digits_value ip) + of_nat (digits_value fp) / 10 ^ length fp)
                   else None))"

text \<open>
  Modelled from the spec: the decoding of a \<open>priceAsString\<close> or \<open>quantityAsString\<close>
  (section 6) into a decimal number, which \<open>lib/orderbook\<close> performs and the source files
  do not show. A string is numeric when it is an optional minus sign, digits, and optionally
  a point followed by digits; anything else is the "non-numeric" entry of section 4.2.
\<close>
definition parse_decimal :: "string \<Rightarrow> rat option" where
  "parse_decimal s =
     (case s of
        [] \<Rightarrow> None
      | c # r \<Rightarrow> if c = CHR ''-'' then map_option uminus (parse_unsigned r) else parse_unsigned s)"

text \<open>
  Modelled from the spec: the ledger operation \<open>set(price, quantity)\<close> of section 4.1, missing
  with \<open>lib/orderbook\<close>. A positive quantity inserts or overwrites the level, zero removes it,
  and a negative quantity is rejected (the entry is dropped, as sections 4.2 and 7 say of
  negative entries), which leaves the ledger as it was.
\<close>
definition ledger_set :: "rat \<Rightarrow> rat \<Rightarrow> ledger \<Rightarrow> ledger" where
  "ledger_set p q m =
     (if 0 < q then AList.update p q m
      else if q = 0 then AList.delete p m
      else m)"

text \<open>
  Modelled from the spec: a sequence of \<open>set\<close> operations applied to a ledger one after
  the other.
\<close>
fun apply_sets :: "ledger \<Rightarrow> (rat \<times> rat) list \<Rightarrow> ledger" where
  "apply_sets m [] = m"
| "apply_sets m ((p, q) # ops) = apply_sets (ledger_set p q m) ops"

text \<open>
  Modelled from the spec: the treatment of one \<open>[priceAsString, quantityAsString]\<close> entry
  of a batch, missing with \<open>lib/orderbook\<close>. Section 4.2: an entry whose price or quantity
  is not numeric, or whose price is negative, is dropped; any other entry is a \<open>set\<close>. The
  diagnostic that accompanies a dropped entry is not part of the ledger and is left out.
\<close>
definition apply_change :: "ledger \<Rightarrow> string \<times> string \<Rightarrow> ledger" where
  "apply_change m c =
     (case parse_decimal (fst c) of
        None \<Rightarrow> m
      | Some p \<Rightarrow>
          (case parse_decimal (snd c) of
             None \<Rightarrow> m
           | Some q \<Rightarrow> if p < 0 then m else ledger_set p q m))"

text \<open>
  Modelled from the spec: \<open>applyDepthDelta(ledger, changes)\<close>, missing with \<open>lib/orderbook\<close>;
  it is one side of \<open>applyDelta\<close> in section 4.2, which applies the changes in the order
  received.
\<close>
fun applyDepthDelta :: "ledger \<Rightarrow> (string \<times> string) list \<Rightarrow> ledger" where
  "applyDepthDelta m [] = m"
| "applyDepthDelta m (c # cs) = applyDepthDelta (apply_change m c) cs"

text \<open>
  Modelled from the spec: the running cumulative sum of section 4.1, each row carrying the
  sum of the quantities up to and including its own.
\<close>
fun with_cum :: "rat \<Rightarrow> (rat \<times> rat) list \<Rightarrow> OrderRow list" where
  "with_cum acc [] = []"
| "with_cum acc ((p, q) # es) =
     \<lparr>price = p, qty = q, cum = acc + q\<rparr> # with_cum (acc + q) es"

text \<open>
  Modelled from the spec: \<open>mapToSortedArray(ledger, side, limit)\<close>, missing with
  \<open>lib/orderbook\<close>; it is \<open>snapshot(orderDirection, limit)\<close> of section 4.1. The entries are
  sorted by price, descending for bids and ascending for asks, truncated to \<open>limit\<close> entries,
  and each is paired with the running sum of the quantities, which starts at 0 before the
  first entry.
\<close>
definition mapToSortedArray :: "ledger \<Rightarrow> side \<Rightarrow> nat \<Rightarrow> OrderRow list" where
  "mapToSortedArray m sd limit =
     with_cum 0 (take limit (case sd of
                               Bids \<Rightarrow> sort_key (\<lambda>e. - fst e) m
                             | Asks \<Rightarrow> sort_key fst m))"

section \<open>The \<open>OrderBook\<close> component\<close>

text \<open>
  \<open>DepthDelta\<close> is the interface of the same name: both fields are optional. The fields
  \<open>b\<close> and \<open>a\<close> of the source are called \<open>delta_b\<close> and \<open>delta_a\<close> here.
\<close>
record DepthDelta =
  delta_b :: "(string \<times> string) list option"
  delta_a :: "(string \<times> string) list option"

text \<open>
  The state of one mounted component: the two ledgers (\<open>bidsRef\<close>, \<open>asksRef\<close>), the
  \<open>version\<close> counter whose change makes React render again, the \<open>pending\<close> flag, and the
  number of callbacks that were handed to \<open>requestAnimationFrame\<close> and have not run yet.
  The ledger type is a parameter, as the component only passes the ledgers on.
\<close>
record 'l OrderBook_state =
  bidsRef :: 'l
  asksRef :: 'l
  version :: nat
  pending :: bool
  frameRequests :: nat

text \<open>The operator \<open>x ?? d\<close>; \<open>None\<close> stands for \<open>undefined\<close> and \<open>null\<close>.\<close>
definition nullish_or :: "'a option \<Rightarrow> 'a \<Rightarrow> 'a" where
  "nullish_or x d = (case x of None \<Rightarrow> d | Some v \<Rightarrow> v)"

definition scheduleRender :: "'l OrderBook_state \<Rightarrow> 'l OrderBook_state" where
  "scheduleRender s =
     (if pending s then s
      else s\<lparr>pending := True, frameRequests := frameRequests s + 1\<rparr>)"

text \<open>The callback given to \<open>requestAnimationFrame\<close>.\<close>
definition frameCallback :: "'l OrderBook_state \<Rightarrow> 'l OrderBook_state" where
  "frameCallback s = s\<lparr>pending := False, version := version s + 1\<rparr>"

text \<open>
  A display refresh: the browser runs every callback requested since the last refresh, once
  each.
\<close>
definition animationFrame :: "'l OrderBook_state \<Rightarrow> 'l OrderBook_state" where
  "animationFrame s = (frameCallback ^^ frameRequests s) (s\<lparr>frameRequests := 0\<rparr>)"

text \<open>
  \<open>onDepthUpdate\<close> of the component. Its first argument is \<open>applyDepthDelta\<close>, the imported
  function it calls on each ledger.
\<close>
definition OrderBook_onDepthUpdate ::
  "('l \<Rightarrow> (string \<times> string) list \<Rightarrow> 'l) \<Rightarrow> DepthDelta option \<Rightarrow>
   'l OrderBook_state \<Rightarrow> 'l OrderBook_state" where
  "OrderBook_onDepthUpdate applyDelta d s =
     (case d of
        None \<Rightarrow> s
      | Some dd \<Rightarrow>
          scheduleRender
            (s\<lparr>bidsRef := applyDelta (bidsRef s) (nullish_or (delta_b dd) []),
               asksRef := applyDelta (asksRef s) (nullish_or (delta_a dd) [])\<rparr>))"

datatype render_event = Notify | Refresh

fun render_step :: "'l OrderBook_state \<Rightarrow> render_event \<Rightarrow> 'l OrderBook_state" where
  "render_step s Notify = scheduleRender s"
| "render_step s Refresh = animationFrame s"

text \<open>\<open>bids[0]\<close>: \<open>undefined\<close> on an empty array.\<close>
definition first_row :: "OrderRow list \<Rightarrow> OrderRow option" where
  "first_row rows = (case rows of [] \<Rightarrow> None | r # _ \<Rightarrow> Some r)"

definition topBid :: "OrderRow list \<Rightarrow> rat" where
  "topBid bids = nullish_or (map_option price (first_row bids)) 0"

definition topAsk :: "OrderRow list \<Rightarrow> rat" where
  "topAsk asks = nullish_or (map_option price (first_row asks)) 0"

text \<open>\<open>topAsk && topBid ? topAsk - topBid : 0\<close>; a number is truthy when it is not 0.\<close>
definition spread :: "OrderRow list \<Rightarrow> OrderRow list \<Rightarrow> rat" where
  "spread bids asks =
     (if topAsk asks \<noteq> 0 \<and> topBid bids \<noteq> 0 then topAsk asks - topBid bids else 0)"

text \<open>
  The labels under the spread, \<open>topBid ? `Bid ...` : '-'\<close> and the same for \<open>topAsk\<close>:
  whether a price is shown rather than the dash.
\<close>
definition priceLabelShown :: "rat \<Rightarrow> bool" where
  "priceLabelShown x = (x \<noteq> 0)"

text \<open>
  The flag and the queue of the browser agree: a callback is waiting exactly when \<open>pending\<close>
  is set.
\<close>
definition coalesced :: "'l OrderBook_state \<Rightarrow> bool" where
  "coalesced s = (frameRequests s = (if pending s then 1 else 0))"

section \<open>The hook \<open>useBinanceSocket\<close>\<close>

subsection \<open>Decoded messages\<close>

text \<open>
  A value produced by \<open>JSON.parse\<close>. The list of a \<open>JObj\<close> holds the object's own
  properties, and \<^const>\<open>map_of\<close> reads one.
\<close>
datatype json =
    JNull
  | JBool bool
  | JNum rat
  | JStr string
  | JArr "json list"
  | JObj "(string \<times> json) list"

datatype js_error = SyntaxError | TypeError | Thrown string

text \<open>
  \<open>'stream' in parsed\<close>: a \<open>TypeError\<close> unless \<open>parsed\<close> is an object; an array is an
  object and has no property of that name.
\<close>
definition stream_in :: "json \<Rightarrow> js_error + bool" where
  "stream_in v =
     (case v of
        JObj fs \<Rightarrow> Inr (''stream'' \<in> set (map fst fs))
      | JArr _ \<Rightarrow> Inr False
      | _ \<Rightarrow> Inl TypeError)"

text \<open>
  The property reads \<open>parsed.data\<close> and \<open>payload.e\<close>: \<open>None\<close> is \<open>undefined\<close>. Only an
  object can carry either name; a primitive or an array yields \<open>undefined\<close>, and so does
  \<open>null\<close> under the optional chaining of \<open>payload?.e\<close>.
\<close>
definition property :: "json \<Rightarrow> string \<Rightarrow> json option" where
  "property v k = (case v of JObj fs \<Rightarrow> map_of fs k | _ \<Rightarrow> None)"

text \<open>JavaScript truthiness of a decoded value.\<close>
definition truthy :: "json \<Rightarrow> bool" where
  "truthy v =
     (case v of
        JNull \<Rightarrow> False
      | JBool c \<Rightarrow> c
      | JNum n \<Rightarrow> n \<noteq> 0
      | JStr t \<Rightarrow> t \<noteq> []
      | JArr _ \<Rightarrow> True
      | JObj _ \<Rightarrow> True)"

subsection \<open>Options and state\<close>

datatype depthInterval_ms = Ms100 | Ms250 | Ms500

definition show_interval :: "depthInterval_ms \<Rightarrow> string" where
  "show_interval d = (case d of Ms100 \<Rightarrow> ''100'' | Ms250 \<Rightarrow> ''250'' | Ms500 \<Rightarrow> ''500'')"

text \<open>
  A callback of the caller works on the caller's own state \<open>'a\<close>. It returns the state it
  leaves behind, together with the exception it threw, if any.
\<close>
type_synonym 'a callback = "json \<Rightarrow> 'a \<Rightarrow> js_error option \<times> 'a"

record 'a UseBinanceSocketOptions =
  symbol :: string
  onAggTrade :: "'a callback option"
  onDepthUpdate :: "'a callback option"
  combined :: bool
  depthInterval :: depthInterval_ms

datatype readyState = CONNECTING | OPEN | CLOSING | CLOSED

record WebSocket =
  url :: string
  readyState :: readyState

datatype console_entry =
    Info_connected string
  | Error_malformed js_error
  | Error_ws
  | Warn_reconnecting rat

text \<open>
  The state of one run of the hook's effect: the three \<open>useRef\<close> cells, the variable
  \<open>mounted\<close> of the effect, every \<open>WebSocket\<close> created so far (\<open>wsRef\<close> holds the index of
  one of them), the delays of the \<open>setTimeout(connect, t)\<close> calls that have not fired yet,
  the console, and the caller's state.
\<close>
record 'a hook_state =
  wsRef :: "nat option"
  backoffRef :: rat
  closedByUser :: bool
  mounted :: bool
  sockets :: "WebSocket list"
  timers :: "rat list"
  console :: "console_entry list"
  app :: 'a

subsection \<open>The address\<close>

text \<open>
  \<open>String.prototype.toLowerCase\<close>, on a string of ASCII characters: \<open>A\<close> is 65, \<open>Z\<close> is 90 and
  \<open>a\<close> is 97. The function of the platform also maps the letters outside ASCII, which a
  string of bytes does not represent; \<open>createUrl_with\<close> below therefore takes the
  lower-casing as an argument, and this one is its instance for ASCII symbols.
\<close>
definition lower_char :: "char \<Rightarrow> char" where
  "lower_char c =
     (if (65::nat) \<le> of_char c \<and> of_char c \<le> (90::nat)
      then char_of (of_char c + (32::nat)) else c)"

definition toLowerCase :: "string \<Rightarrow> string" where
  "toLowerCase t = map lower_char t"

fun join :: "string \<Rightarrow> string list \<Rightarrow> string" where
  "join sep [] = []"
| "join sep [x] = x"
| "join sep (x # y # zs) = x @ sep @ join sep (y # zs)"

definition base :: string where
  "base = ''wss://stream.binance.com:9443''"

text \<open>\<open>createUrl\<close>, with the \<open>toLowerCase\<close> of the platform as its first argument.\<close>
definition createUrl_with ::
  "(string \<Rightarrow> string) \<Rightarrow> 'a UseBinanceSocketOptions \<Rightarrow> string" where
  "createUrl_with lc opts =
     (let s = lc (symbol opts)
      in if combined opts
         then (let streams = join ''/'' [s @ ''@aggTrade'',
                                         s @ ''@depth@'' @ show_interval (depthInterval opts) @ ''ms'']
               in base @ ''/stream?streams='' @ streams)
         else base @ ''/ws/'' @ s @ ''@aggTrade'')"

definition createUrl :: "'a UseBinanceSocketOptions \<Rightarrow> string" where
  "createUrl opts = createUrl_with toLowerCase opts"

text \<open>The topic of the depth stream, as \<open>createUrl\<close> writes it in combined mode.\<close>
definition depth_topic :: "string \<Rightarrow> depthInterval_ms \<Rightarrow> string" where
  "depth_topic s d = s @ ''@depth@'' @ show_interval d @ ''ms''"

subsection \<open>The handlers\<close>

definition connect :: "'a UseBinanceSocketOptions \<Rightarrow> 'a hook_state \<Rightarrow> 'a hook_state" where
  "connect opts s =
     (if \<not> mounted s then s
      else s\<lparr>sockets := sockets s @ [\<lparr>url = createUrl opts, readyState = CONNECTING\<rparr>],
             wsRef := Some (length (sockets s))\<rparr>)"

definition onopen :: "'a UseBinanceSocketOptions \<Rightarrow> 'a hook_state \<Rightarrow> 'a hook_state" where
  "onopen opts s =
     s\<lparr>backoffRef := 500, console := console s @ [Info_connected (createUrl opts)]\<rparr>"

text \<open>\<open>cb?.(payload)\<close>: nothing happens when the callback is not registered.\<close>
definition invoke ::
  "'a callback option \<Rightarrow> json \<Rightarrow> 'a hook_state \<Rightarrow> js_error option \<times> 'a hook_state" where
  "invoke cb payload s =
     (case cb of
        None \<Rightarrow> (None, s)
      | Some f \<Rightarrow> (case f payload (app s) of (err, a') \<Rightarrow> (err, s\<lparr>app := a'\<rparr>)))"

text \<open>
  \<open>const payload = 'stream' in parsed ? parsed.data : parsed\<close>, once the \<open>in\<close> test has
  given \<open>enveloped\<close>; \<open>None\<close> is \<open>undefined\<close>.
\<close>
definition unwrap :: "json \<Rightarrow> bool \<Rightarrow> json option" where
  "unwrap parsed enveloped = (if enveloped then property parsed ''data'' else Some parsed)"

text \<open>\<open>payload?.e\<close>.\<close>
definition kind_of :: "json option \<Rightarrow> json option" where
  "kind_of payload = (case payload of None \<Rightarrow> None | Some p \<Rightarrow> property p ''e'')"

text \<open>\<open>!x\<close> for a value that may be \<open>undefined\<close>.\<close>
definition falsy :: "json option \<Rightarrow> bool" where
  "falsy x = (case x of None \<Rightarrow> True | Some v \<Rightarrow> \<not> truthy v)"

text \<open>The \<open>switch (payload.e)\<close>; it compares with \<open>===\<close>.\<close>
definition dispatch ::
  "'a UseBinanceSocketOptions \<Rightarrow> json \<Rightarrow> 'a hook_state \<Rightarrow> js_error option \<times> 'a hook_state" where
  "dispatch opts payload s =
     (if property payload ''e'' = Some (JStr ''aggTrade'') then invoke (onAggTrade opts) payload s
      else if property payload ''e'' = Some (JStr ''depthUpdate'')
      then invoke (onDepthUpdate opts) payload s
      else (None, s))"

text \<open>
  The body of the \<open>try\<close> block of \<open>ws.onmessage\<close>. The message \<open>ev.data\<close> is given by the
  outcome of \<open>JSON.parse\<close> on it: \<open>None\<close> when the parse throws. The result is the exception
  that left the block, if any, and the state at that point.
\<close>
definition route ::
  "'a UseBinanceSocketOptions \<Rightarrow> json option \<Rightarrow> 'a hook_state \<Rightarrow>
   js_error option \<times> 'a hook_state" where
  "route opts decoded s =
     (case decoded of
        None \<Rightarrow> (Some SyntaxError, s)
      | Some parsed \<Rightarrow>
          (case stream_in parsed of
             Inl err \<Rightarrow> (Some err, s)
           | Inr enveloped \<Rightarrow>
               if falsy (kind_of (unwrap parsed enveloped)) then (None, s)
               else (case unwrap parsed enveloped of
                       None \<Rightarrow> (None, s)
                     | Some payload \<Rightarrow> dispatch opts payload s)))"

text \<open>\<open>ws.onmessage\<close>: the \<open>catch\<close> clause writes the exception to the console.\<close>
definition onmessage ::
  "'a UseBinanceSocketOptions \<Rightarrow> json option \<Rightarrow> 'a hook_state \<Rightarrow> 'a hook_state" where
  "onmessage opts decoded s =
     (case route opts decoded s of
        (None, s') \<Rightarrow> s'
      | (Some err, s') \<Rightarrow> s'\<lparr>console := console s' @ [Error_malformed err]\<rparr>)"

definition onerror :: "'a hook_state \<Rightarrow> 'a hook_state" where
  "onerror s = s\<lparr>console := console s @ [Error_ws]\<rparr>"

definition onclose :: "'a hook_state \<Rightarrow> 'a hook_state" where
  "onclose s =
     (let s1 = s\<lparr>wsRef := None\<rparr>
      in if closedByUser s1 \<or> \<not> mounted s1 then s1
         else (let t = backoffRef s1
               in s1\<lparr>console := console s1 @ [Warn_reconnecting t],
                     backoffRef := min (backoffRef s1 * (9 / 5)) 30000,
                     timers := timers s1 @ [t]\<rparr>))"

text \<open>
  What the browser does to a socket: \<open>ws.close()\<close> moves a connecting or open socket to
  \<open>CLOSING\<close>, and the events \<open>open\<close> and \<open>close\<close> set \<open>OPEN\<close> and \<open>CLOSED\<close>.
\<close>
definition set_readyState :: "nat \<Rightarrow> readyState \<Rightarrow> 'a hook_state \<Rightarrow> 'a hook_state" where
  "set_readyState i r s =
     (if i < length (sockets s)
      then s\<lparr>sockets := (sockets s)[i := (sockets s ! i)\<lparr>readyState := r\<rparr>]\<rparr>
      else s)"

definition ws_close :: "nat \<Rightarrow> 'a hook_state \<Rightarrow> 'a hook_state" where
  "ws_close i s =
     (if i < length (sockets s)
         \<and> (readyState (sockets s ! i) = CONNECTING \<or> readyState (sockets s ! i) = OPEN)
      then set_readyState i CLOSING s
      else s)"

text \<open>The function \<open>close\<close> that the hook returns.\<close>
definition close :: "'a hook_state \<Rightarrow> 'a hook_state" where
  "close s =
     (let s1 = s\<lparr>closedByUser := True\<rparr>
      in case wsRef s1 of None \<Rightarrow> s1 | Some i \<Rightarrow> ws_close i s1)"

text \<open>The clean-up function that the effect returns.\<close>
definition cleanup :: "'a hook_state \<Rightarrow> 'a hook_state" where
  "cleanup s =
     (let s1 = s\<lparr>mounted := False, closedByUser := True\<rparr>;
          s2 = (case wsRef s1 of
                  None \<Rightarrow> s1
                | Some i \<Rightarrow>
                    if i < length (sockets s1) \<and> readyState (sockets s1 ! i) = OPEN
                    then ws_close i s1 else s1)
      in s2\<lparr>wsRef := None\<rparr>)"

text \<open>The effect: it clears \<open>closedByUser\<close>, sets \<open>mounted\<close> and calls \<open>connect\<close>.\<close>
definition mount :: "'a UseBinanceSocketOptions \<Rightarrow> 'a \<Rightarrow> 'a hook_state" where
  "mount opts a0 =
     connect opts
       \<lparr>wsRef = None, backoffRef = 500, closedByUser = False, mounted = True,
        sockets = [], timers = [], console = [], app = a0\<rparr>"

subsection \<open>Events\<close>

text \<open>
  What can happen to a mounted hook: an event of socket \<open>i\<close>, the oldest pending timer
  firing, the caller calling \<open>close()\<close>, and React running the clean-up.
\<close>
datatype event =
    WsOpen nat
  | WsMessage nat "json option"
  | WsError nat
  | WsClose nat
  | TimerFired
  | CloseCalled
  | EffectCleanup

fun step :: "'a UseBinanceSocketOptions \<Rightarrow> 'a hook_state \<Rightarrow> event \<Rightarrow> 'a hook_state" where
  "step opts s (WsOpen i) = onopen opts (set_readyState i OPEN s)"
| "step opts s (WsMessage i decoded) = onmessage opts decoded s"
| "step opts s (WsError i) = onerror s"
| "step opts s (WsClose i) = onclose (set_readyState i CLOSED s)"
| "step opts s TimerFired =
     (case timers s of [] \<Rightarrow> s | t # ts \<Rightarrow> connect opts (s\<lparr>timers := ts\<rparr>))"
| "step opts s CloseCalled = close s"
| "step opts s EffectCleanup = cleanup s"

definition run :: "'a UseBinanceSocketOptions \<Rightarrow> 'a hook_state \<Rightarrow> event list \<Rightarrow> 'a hook_state" where
  "run opts s es = foldl (step opts) s es"

text \<open>The delays announced on the console, in the order they were scheduled.\<close>
fun delays :: "console_entry list \<Rightarrow> rat list" where
  "delays [] = []"
| "delays (Warn_reconnecting t # es) = t # delays es"
| "delays (_ # es) = delays es"

text \<open>A connection failure is a \<open>close\<close> event of a socket.\<close>
fun is_failure :: "event \<Rightarrow> bool" where
  "is_failure (WsClose _) = True"
| "is_failure _ = False"

text \<open>The events that are neither a successful open nor a shutdown.\<close>
fun no_open_no_shutdown :: "event \<Rightarrow> bool" where
  "no_open_no_shutdown (WsOpen _) = False"
| "no_open_no_shutdown CloseCalled = False"
| "no_open_no_shutdown EffectCleanup = False"
| "no_open_no_shutdown _ = True"

text \<open>
  The defaults of the options, \<open>symbol = 'btcusdt'\<close>, \<open>combined = true\<close> and
  \<open>depthInterval = 100\<close>, with no callback registered.
\<close>
definition default_options :: "'a UseBinanceSocketOptions" where
  "default_options =
     \<lparr>symbol = ''btcusdt'', onAggTrade = None, onDepthUpdate = None,
      combined = True, depthInterval = Ms100\<rparr>"

section \<open>Properties of the ledger operations\<close>

lemma set_update_subset: "set (AList.update p q m) \<subseteq> insert (p, q) (set m)"
  by (induction m) auto

lemma set_delete_subset: "set (AList.delete p m) \<subseteq> set m"
  by (auto simp: AList.delete_eq)

lemma ledger_set_positive:
  assumes "\<forall>e\<in>set m. 0 < snd e"
  shows "\<forall>e\<in>set (ledger_set p q m). 0 < snd e"
proof (cases "0 < q")
  case True
  with assms set_update_subset [of p q m] show ?thesis
    by (auto simp: ledger_set_def)
next
  case False
  with assms set_delete_subset [of p m] show ?thesis
    by (auto simp: ledger_set_def)
qed

lemma apply_sets_positive:
  "\<forall>e\<in>set m. 0 < snd e \<Longrightarrow> \<forall>e\<in>set (apply_sets m ops). 0 < snd e"
proof (induction m ops rule: apply_sets.induct)
  case (1 m)
  then show ?case by simp
next
  case (2 m p q ops)
  then show ?case using ledger_set_positive [of m p q] by simp
qed

lemma ledger_set_distinct:
  "distinct (map fst m) \<Longrightarrow> distinct (map fst (ledger_set p q m))"
  by (simp add: ledger_set_def distinct_update distinct_delete)

lemma apply_change_distinct:
  "distinct (map fst m) \<Longrightarrow> distinct (map fst (apply_change m c))"
  by (simp add: apply_change_def ledger_set_distinct split: option.splits)

lemma apply_change_positive:
  "\<forall>e\<in>set m. 0 < snd e \<Longrightarrow> \<forall>e\<in>set (apply_change m c). 0 < snd e"
  using ledger_set_positive [of m] by (simp add: apply_change_def split: option.splits)

text \<open>
  A ledger built from the empty one by depth updates has one entry per price and only
  positive quantities.
\<close>

lemma applyDepthDelta_distinct:
  "distinct (map fst m) \<Longrightarrow> distinct (map fst (applyDepthDelta m cs))"
  by (induction cs arbitrary: m) (simp_all add: apply_change_distinct)

lemma applyDepthDelta_positive:
  "\<forall>e\<in>set m. 0 < snd e \<Longrightarrow> \<forall>e\<in>set (applyDepthDelta m cs). 0 < snd e"
proof (induction cs arbitrary: m)
  case Nil
  then show ?case by simp
next
  case (Cons c cs)
  from Cons.prems have "\<forall>e\<in>set (apply_change m c). 0 < snd e"
    by (rule apply_change_positive)
  then show ?case using Cons.IH by simp
qed

lemma zero_after_positive:
  "0 < q \<Longrightarrow> ledger_set p 0 (ledger_set p q m) = AList.delete p m"
  by (simp add: ledger_set_def delete_update_same)

text \<open>
  Claim C6. Whatever sequence of \<open>set(price, quantity)\<close> operations is applied to a ledger
  whose quantities are positive (the empty ledger in particular), every quantity in the
  resulting ledger is positive. \<open>set(p, 0)\<close> on a price that is absent returns the ledger
  unchanged, and \<open>set(p, 0)\<close> after \<open>set(p, q)\<close> with \<open>q > 0\<close> leaves the ledger without the
  level \<open>p\<close>.
\<close>
theorem ledger_never_holds_nonpositive:
  "((\<forall>e\<in>set m. 0 < snd e) \<longrightarrow> (\<forall>e\<in>set (apply_sets m ops). 0 < snd e))
   \<and> (\<forall>e\<in>set (apply_sets [] ops). 0 < snd e)
   \<and> (p \<notin> fst ` set m \<longrightarrow> ledger_set p 0 m = m)
   \<and> (0 < q \<longrightarrow> ledger_set p 0 (ledger_set p q m) = AList.delete p m
                \<and> p \<notin> fst ` set (ledger_set p 0 (ledger_set p q m)))"
proof -
  have a: "(\<forall>e\<in>set m. 0 < snd e) \<longrightarrow> (\<forall>e\<in>set (apply_sets m ops). 0 < snd e)"
    using apply_sets_positive by blast
  have b: "\<forall>e\<in>set (apply_sets [] ops). 0 < snd e"
    using apply_sets_positive [of "[]" ops] by simp
  have c: "p \<notin> fst ` set m \<longrightarrow> ledger_set p 0 m = m"
    by (simp add: ledger_set_def)
  have d: "0 < q \<longrightarrow> ledger_set p 0 (ledger_set p q m) = AList.delete p m
                \<and> p \<notin> fst ` set (ledger_set p 0 (ledger_set p q m))"
    using zero_after_positive [of q p m] delete_notin_dom [of p m] by simp
  from a b c d show ?thesis by blast
qed

theorem ledger_never_holds_nonpositive_witness:
  "list_all (\<lambda>e. 0 < snd e) [(100::rat, 2::rat), (199 / 2, 1)]
   \<and> list_all (\<lambda>e. 0 < snd e)
         (apply_sets [(100, 2), (199 / 2, 1)] [(100, 0), (101, - 3), (99, 5)])
   \<and> apply_sets [(100, 2), (199 / 2, 1)] [(100, 0), (101, - 3), (99, 5)] = [(199 / 2, 1), (99, 5)]
   \<and> (101::rat) \<notin> fst ` set [(100::rat, 2::rat), (199 / 2, 1)]
   \<and> ledger_set 101 0 [(100, 2), (199 / 2, 1)] = [(100, 2), (199 / 2, 1)]
   \<and> (0::rat) < 2
   \<and> ledger_set 100 0 (ledger_set 100 2 [(199 / 2, 1)]) = [(199 / 2, 1)]"
proof -
  have h: "\<forall>e\<in>set [(100::rat, 2::rat), (199 / 2, 1)]. 0 < snd e"
    by simp
  have v: "apply_sets [(100, 2), (199 / 2, 1)] [(100, 0), (101, - 3), (99, 5)]
             = [(199 / 2, 1), (99, 5)]"
    by (simp add: ledger_set_def)
  from h ledger_never_holds_nonpositive
      [of "[(100, 2), (199 / 2, 1)]" "[(100, 0), (101, - 3), (99, 5)]" 101 2]
  have "\<forall>e\<in>set (apply_sets [(100, 2), (199 / 2, 1)] [(100, 0), (101, - 3), (99, 5)]). 0 < snd e"
    by blast
  then have "list_all (\<lambda>e. 0 < snd e)
         (apply_sets [(100, 2), (199 / 2, 1)] [(100, 0), (101, - 3), (99, 5)])"
    by (simp only: list_all_iff)
  with v ledger_never_holds_nonpositive [of "[(199 / 2, 1)]" "[]" 100 2]
  show ?thesis
    by (simp add: ledger_set_def)
qed

section \<open>Properties of the snapshot\<close>

lemma price_with_cum: "map price (with_cum acc es) = map fst es"
  by (induction acc es rule: with_cum.induct) simp_all

lemma qty_with_cum: "map qty (with_cum acc es) = map snd es"
  by (induction acc es rule: with_cum.induct) simp_all

lemma length_with_cum: "length (with_cum acc es) = length es"
  by (induction acc es rule: with_cum.induct) simp_all

lemma cum_with_cum:
  "i < length es \<Longrightarrow> cum (with_cum acc es ! i) = acc + sum_list (map snd (take (Suc i) es))"
proof (induction acc es arbitrary: i rule: with_cum.induct)
  case (1 acc)
  then show ?case by simp
next
  case (2 acc p q es)
  show ?case
  proof (cases i)
    case 0
    then show ?thesis by simp
  next
    case (Suc j)
    with "2.prems" have "j < length es" by simp
    from "2.IH" [OF this] Suc show ?thesis by (simp add: add.assoc)
  qed
qed

lemma cum_is_running_sum:
  assumes "i < length (with_cum 0 es)"
  shows "cum (with_cum 0 es ! i) = sum_list (map qty (take (Suc i) (with_cum 0 es)))"
proof -
  from assms have "i < length es" by (simp add: length_with_cum)
  then have "cum (with_cum 0 es ! i) = sum_list (map snd (take (Suc i) es))"
    using cum_with_cum [of i es 0] by simp
  also have "map snd (take (Suc i) es) = map qty (take (Suc i) (with_cum 0 es))"
    by (simp only: take_map [symmetric] qty_with_cum)
  finally show ?thesis .
qed

lemma ascending_prices:
  assumes "distinct (map fst (m :: ledger))"
  shows "sorted_wrt (<) (map fst (sort_key fst m))"
proof -
  from assms have "distinct (map fst (sort_key fst m))"
    by (simp add: distinct_map)
  then show ?thesis
    by (simp add: strict_sorted_iff sorted_sort_key)
qed

lemma descending_prices:
  assumes "distinct (map fst (m :: ledger))"
  shows "sorted_wrt (>) (map fst (sort_key (\<lambda>e. - fst e) m))"
proof -
  let ?xs = "sort_key (\<lambda>e. - fst e) m"
  have "sorted (map (\<lambda>e. - fst e) ?xs)"
    by (rule sorted_sort_key)
  moreover from assms have "distinct (map (\<lambda>e. - fst e) ?xs)"
    by (auto simp: distinct_map inj_on_def)
  ultimately have "sorted_wrt (<) (map (\<lambda>e. - fst e) ?xs)"
    by (simp add: strict_sorted_iff)
  then show ?thesis
    by (simp add: sorted_wrt_map)
qed

lemma rows_from_entries:
  "(\<lambda>r. (price r, qty r)) ` set (with_cum acc es) = set es"
  by (induction acc es rule: with_cum.induct) simp_all

lemma rows_from_ledger:
  assumes "r \<in> set (mapToSortedArray m sd n)"
  shows "(price r, qty r) \<in> set m"
proof -
  let ?es = "take n (case sd of Bids \<Rightarrow> sort_key (\<lambda>e. - fst e) m | Asks \<Rightarrow> sort_key fst m)"
  from assms have "(price r, qty r) \<in> (\<lambda>r. (price r, qty r)) ` set (with_cum 0 ?es)"
    unfolding mapToSortedArray_def by (rule imageI)
  then have "(price r, qty r) \<in> set ?es"
    by (simp only: rows_from_entries)
  then have "(price r, qty r) \<in> set (case sd of Bids \<Rightarrow> sort_key (\<lambda>e. - fst e) m | Asks \<Rightarrow> sort_key fst m)"
    by (rule in_set_takeD)
  then show ?thesis by (cases sd) simp_all
qed

text \<open>
  Claim C5. For a ledger (one entry per price) and a limit \<open>n\<close>, the bid snapshot is strictly
  descending by price and the ask snapshot strictly ascending; a snapshot has \<open>min n (size of
  the ledger)\<close> rows, so at most \<open>n\<close>, each of them a level of the ledger; the cumulative
  quantity of row \<open>i\<close> is the sum of the quantities of rows \<open>0..i\<close> of the snapshot itself.
  From the empty ledger, the bid changes \<open>[("100.00","2"), ("99.50","1")]\<close> give the snapshot
  \<open>[(100, 2, 2), (99.5, 1, 3)]\<close> at limit 25, and after \<open>[("100.00","0")]\<close> it is
  \<open>[(99.5, 1, 1)]\<close>.
\<close>
theorem snapshot_sorted_truncated_cumulative:
  "(distinct (map fst m) \<longrightarrow>
      sorted_wrt (>) (map price (mapToSortedArray m Bids n))
      \<and> sorted_wrt (<) (map price (mapToSortedArray m Asks n)))
   \<and> length (mapToSortedArray m sd n) = min n (length m)
   \<and> length (mapToSortedArray m sd n) \<le> n
   \<and> (\<forall>r\<in>set (mapToSortedArray m sd n). (price r, qty r) \<in> set m)
   \<and> (\<forall>i < length (mapToSortedArray m sd n).
        cum (mapToSortedArray m sd n ! i)
          = sum_list (map qty (take (Suc i) (mapToSortedArray m sd n))))
   \<and> mapToSortedArray (applyDepthDelta [] [(''100.00'', ''2''), (''99.50'', ''1'')]) Bids 25
       = [\<lparr>price = 100, qty = 2, cum = 2\<rparr>, \<lparr>price = 199 / 2, qty = 1, cum = 3\<rparr>]
   \<and> mapToSortedArray
         (applyDepthDelta (applyDepthDelta [] [(''100.00'', ''2''), (''99.50'', ''1'')])
            [(''100.00'', ''0'')]) Bids 25
       = [\<lparr>price = 199 / 2, qty = 1, cum = 1\<rparr>]"
proof -
  have ord: "distinct (map fst m) \<longrightarrow>
      sorted_wrt (>) (map price (mapToSortedArray m Bids n))
      \<and> sorted_wrt (<) (map price (mapToSortedArray m Asks n))"
    using descending_prices [of m] ascending_prices [of m]
    by (simp add: mapToSortedArray_def price_with_cum take_map [symmetric] sorted_wrt_take)
  have len: "length (mapToSortedArray m sd n) = min n (length m)"
    by (cases sd) (simp_all add: mapToSortedArray_def length_with_cum)
  then have le: "length (mapToSortedArray m sd n) \<le> n"
    by simp
  have mem: "\<forall>r\<in>set (mapToSortedArray m sd n). (price r, qty r) \<in> set m"
    using rows_from_ledger by blast
  have run: "\<forall>i < length (mapToSortedArray m sd n).
        cum (mapToSortedArray m sd n ! i)
          = sum_list (map qty (take (Suc i) (mapToSortedArray m sd n)))"
    unfolding mapToSortedArray_def using cum_is_running_sum by blast
  have ex1: "mapToSortedArray (applyDepthDelta [] [(''100.00'', ''2''), (''99.50'', ''1'')]) Bids 25
       = [\<lparr>price = 100, qty = 2, cum = 2\<rparr>, \<lparr>price = 199 / 2, qty = 1, cum = 3\<rparr>]"
    by code_simp
  have ex2: "mapToSortedArray
         (applyDepthDelta (applyDepthDelta [] [(''100.00'', ''2''), (''99.50'', ''1'')])
            [(''100.00'', ''0'')]) Bids 25
       = [\<lparr>price = 199 / 2, qty = 1, cum = 1\<rparr>]"
    by code_simp
  from ord len le mem run ex1 ex2 show ?thesis by blast
qed

theorem snapshot_sorted_truncated_cumulative_witness:
  "distinct (map fst [(100::rat, 2::rat), (101, 4), (199 / 2, 1)])
   \<and> sorted_wrt (>) (map price (mapToSortedArray [(100, 2), (101, 4), (199 / 2, 1)] Bids 2))
   \<and> sorted_wrt (<) (map price (mapToSortedArray [(100, 2), (101, 4), (199 / 2, 1)] Asks 2))
   \<and> length (mapToSortedArray [(100, 2), (101, 4), (199 / 2, 1)] Bids 2) = 2
   \<and> mapToSortedArray [(100, 2), (101, 4), (199 / 2, 1)] Bids 2
       = [\<lparr>price = 101, qty = 4, cum = 4\<rparr>, \<lparr>price = 100, qty = 2, cum = 6\<rparr>]
   \<and> cum (mapToSortedArray [(100, 2), (101, 4), (199 / 2, 1)] Bids 2 ! 1)
       = sum_list (map qty (take 2 (mapToSortedArray [(100, 2), (101, 4), (199 / 2, 1)] Bids 2)))"
proof -
  have d: "distinct (map fst [(100::rat, 2::rat), (101, 4), (199 / 2, 1)])"
    by simp
  have v: "mapToSortedArray [(100, 2), (101, 4), (199 / 2, 1)] Bids 2
       = [\<lparr>price = 101, qty = 4, cum = 4\<rparr>, \<lparr>price = 100, qty = 2, cum = 6\<rparr>]"
    by code_simp
  have i: "(1::nat) < length (mapToSortedArray [(100, 2), (101, 4), (199 / 2, 1)] Bids 2)"
    by (simp add: v)
  from d i snapshot_sorted_truncated_cumulative [of "[(100, 2), (101, 4), (199 / 2, 1)]" 2 Bids]
  have "sorted_wrt (>) (map price (mapToSortedArray [(100, 2), (101, 4), (199 / 2, 1)] Bids 2))
   \<and> sorted_wrt (<) (map price (mapToSortedArray [(100, 2), (101, 4), (199 / 2, 1)] Asks 2))
   \<and> length (mapToSortedArray [(100, 2), (101, 4), (199 / 2, 1)] Bids 2) = min 2 (length [(100::rat, 2::rat), (101, 4), (199 / 2, 1)])
   \<and> cum (mapToSortedArray [(100, 2), (101, 4), (199 / 2, 1)] Bids 2 ! 1)
       = sum_list (map qty (take (Suc 1) (mapToSortedArray [(100, 2), (101, 4), (199 / 2, 1)] Bids 2)))"
    by blast
  with d v show ?thesis by simp
qed

section \<open>Properties of the component\<close>

lemma scheduleRender_idem: "scheduleRender (scheduleRender s) = scheduleRender s"
  by (simp add: scheduleRender_def)

lemma scheduleRender_burst: "1 \<le> K \<Longrightarrow> (scheduleRender ^^ K) s = scheduleRender s"
proof (induction K)
  case 0
  then show ?case by simp
next
  case (Suc K)
  show ?case
  proof (cases "K = 0")
    case True
    then show ?thesis by simp
  next
    case False
    with Suc.IH have "(scheduleRender ^^ K) s = scheduleRender s" by simp
    then show ?thesis by (simp add: scheduleRender_idem)
  qed
qed

lemma coalesced_scheduleRender: "coalesced s \<Longrightarrow> coalesced (scheduleRender s)"
  by (simp add: coalesced_def scheduleRender_def)

lemma animationFrame_cases:
  "coalesced s \<Longrightarrow>
   animationFrame s = (if pending s then s\<lparr>frameRequests := 0, pending := False, version := version s + 1\<rparr>
                       else s)"
  by (simp add: coalesced_def animationFrame_def frameCallback_def)

lemma coalesced_animationFrame: "coalesced s \<Longrightarrow> coalesced (animationFrame s)"
  by (simp add: animationFrame_cases) (simp add: coalesced_def)

lemma coalesced_render_step: "coalesced s \<Longrightarrow> coalesced (render_step s e)"
  by (cases e) (simp_all add: coalesced_scheduleRender coalesced_animationFrame)

lemma coalesced_foldl: "coalesced s \<Longrightarrow> coalesced (foldl render_step s evs)"
  by (induction evs arbitrary: s) (simp_all add: coalesced_render_step)

lemma coalesced_le_1: "coalesced s \<Longrightarrow> frameRequests s \<le> 1"
  by (simp add: coalesced_def)

text \<open>
  Claim C7. Take a component whose flag and frame queue agree (as they do when it is
  mounted). However calls of \<open>scheduleRender\<close> and display refreshes follow each other, at
  most one callback is waiting at any time. After a burst of \<open>K \<ge> 1\<close> calls exactly one
  callback is waiting, and the refresh that ends the interval runs it once: \<open>version\<close> goes up
  by exactly 1 and nothing is left waiting. A call made while \<open>pending\<close> is set returns the
  state unchanged.
\<close>
theorem render_coalescing:
  "coalesced s \<Longrightarrow> 1 \<le> K \<Longrightarrow>
     (\<forall>evs. frameRequests (foldl render_step s evs) \<le> 1)
   \<and> (\<forall>j \<le> K. frameRequests ((scheduleRender ^^ j) s) \<le> 1)
   \<and> frameRequests ((scheduleRender ^^ K) s) = 1
   \<and> version (animationFrame ((scheduleRender ^^ K) s)) = version s + 1
   \<and> frameRequests (animationFrame ((scheduleRender ^^ K) s)) = 0
   \<and> \<not> pending (animationFrame ((scheduleRender ^^ K) s))
   \<and> (pending s \<longrightarrow> scheduleRender s = s)"
proof -
  assume c: "coalesced s" and k: "1 \<le> K"
  have a: "\<forall>evs. frameRequests (foldl render_step s evs) \<le> 1"
    using c coalesced_foldl coalesced_le_1 by blast
  have b: "\<forall>j \<le> K. frameRequests ((scheduleRender ^^ j) s) \<le> 1"
  proof (intro allI impI)
    fix j
    show "frameRequests ((scheduleRender ^^ j) s) \<le> 1"
    proof (cases "j = 0")
      case True
      with coalesced_le_1 [OF c] show ?thesis by simp
    next
      case False
      then have "(scheduleRender ^^ j) s = scheduleRender s"
        by (simp add: scheduleRender_burst)
      with coalesced_le_1 [OF coalesced_scheduleRender [OF c]] show ?thesis
        by simp
    qed
  qed
  have burst: "(scheduleRender ^^ K) s = scheduleRender s"
    using k by (rule scheduleRender_burst)
  have one: "frameRequests (scheduleRender s) = 1"
    using c by (simp add: coalesced_def scheduleRender_def)
  have p: "pending (scheduleRender s)"
    by (simp add: scheduleRender_def)
  have v: "version (scheduleRender s) = version s"
    by (simp add: scheduleRender_def)
  have fr: "animationFrame (scheduleRender s)
      = (scheduleRender s)\<lparr>frameRequests := 0, pending := False, version := version s + 1\<rparr>"
    using animationFrame_cases [OF coalesced_scheduleRender [OF c]] p v by simp
  have d: "pending s \<longrightarrow> scheduleRender s = s"
    by (simp add: scheduleRender_def)
  from a b one d show ?thesis
    by (simp add: burst fr)
qed

theorem render_coalescing_witness:
  "coalesced \<lparr>bidsRef = (), asksRef = (), version = 7, pending = False, frameRequests = 0\<rparr>
   \<and> (1::nat) \<le> 3
   \<and> frameRequests ((scheduleRender ^^ 3)
        \<lparr>bidsRef = (), asksRef = (), version = 7, pending = False, frameRequests = 0\<rparr>) = 1
   \<and> version (animationFrame ((scheduleRender ^^ 3)
        \<lparr>bidsRef = (), asksRef = (), version = 7, pending = False, frameRequests = 0\<rparr>)) = 8"
proof -
  have c: "coalesced \<lparr>bidsRef = (), asksRef = (), version = 7, pending = False, frameRequests = 0\<rparr>"
    by (simp add: coalesced_def)
  have k: "(1::nat) \<le> 3" by simp
  from render_coalescing [OF c k] c show ?thesis by simp
qed

text \<open>
  Claim C10. A \<open>null\<close> event returns the component unchanged, both ledgers included. An event
  without the field \<open>b\<close> (or without \<open>a\<close>) has the same effect as the event with the empty
  list in its place, and the changes of the other side are applied to the other ledger.
\<close>
theorem depth_update_missing_fields:
  "OrderBook_onDepthUpdate ap None s = s
   \<and> OrderBook_onDepthUpdate ap (Some \<lparr>delta_b = None, delta_a = A\<rparr>) s
       = OrderBook_onDepthUpdate ap (Some \<lparr>delta_b = Some [], delta_a = A\<rparr>) s
   \<and> OrderBook_onDepthUpdate ap (Some \<lparr>delta_b = B, delta_a = None\<rparr>) s
       = OrderBook_onDepthUpdate ap (Some \<lparr>delta_b = B, delta_a = Some []\<rparr>) s
   \<and> asksRef (OrderBook_onDepthUpdate ap (Some \<lparr>delta_b = None, delta_a = Some xs\<rparr>) s)
       = ap (asksRef s) xs
   \<and> bidsRef (OrderBook_onDepthUpdate ap (Some \<lparr>delta_b = Some xs, delta_a = None\<rparr>) s)
       = ap (bidsRef s) xs
   \<and> bidsRef (OrderBook_onDepthUpdate ap (Some \<lparr>delta_b = None, delta_a = A\<rparr>) s)
       = ap (bidsRef s) []
   \<and> asksRef (OrderBook_onDepthUpdate ap (Some \<lparr>delta_b = B, delta_a = None\<rparr>) s)
       = ap (asksRef s) []"
  by (simp add: OrderBook_onDepthUpdate_def nullish_or_def scheduleRender_def)

theorem depth_update_missing_fields_witness:
  "OrderBook_onDepthUpdate applyDepthDelta None
      \<lparr>bidsRef = [(100, 2)], asksRef = [(101, 3)], version = 0, pending = False, frameRequests = 0\<rparr>
     = \<lparr>bidsRef = [(100, 2)], asksRef = [(101, 3)], version = 0, pending = False, frameRequests = 0\<rparr>
   \<and> OrderBook_onDepthUpdate applyDepthDelta (Some \<lparr>delta_b = None, delta_a = Some [(''101.00'', ''0'')]\<rparr>)
      \<lparr>bidsRef = [(100, 2)], asksRef = [(101, 3)], version = 0, pending = False, frameRequests = 0\<rparr>
     = \<lparr>bidsRef = [(100, 2)], asksRef = [], version = 0, pending = True, frameRequests = 1\<rparr>"
proof -
  have "applyDepthDelta [(101, 3)] [(''101.00'', ''0'')] = []"
    by code_simp
  with depth_update_missing_fields [of applyDepthDelta
      "\<lparr>bidsRef = [(100, 2)], asksRef = [(101, 3)], version = 0, pending = False, frameRequests = 0\<rparr>"
      "Some [(''101.00'', ''0'')]" None "[(''101.00'', ''0'')]"]
  show ?thesis
    by (simp add: OrderBook_onDepthUpdate_def nullish_or_def scheduleRender_def)
qed

text \<open>
  Claim C3, as the specification states it, fails: on an empty book \<open>topBid\<close> and \<open>topAsk\<close>
  are the number 0, and so is the spread.
\<close>
theorem empty_side_reads_zero:
  "topBid (mapToSortedArray [] Bids 25) = 0
   \<and> topAsk (mapToSortedArray [] Asks 25) = 0
   \<and> spread (mapToSortedArray [] Bids 25) (mapToSortedArray [] Asks 25) = 0"
  by (simp add: topBid_def topAsk_def spread_def first_row_def nullish_or_def mapToSortedArray_def)

text \<open>
  Claim C3, amended. On a side without rows \<open>topBid\<close> (\<open>topAsk\<close>) is the number 0, which the
  component uses as its "no value": the label then shows the dash, and the spread is 0 as
  soon as one side has no rows. On a side with rows it is the price of the first row.
\<close>
theorem top_of_book:
  "topBid [] = 0 \<and> topAsk [] = 0
   \<and> topBid (r # rs) = price r \<and> topAsk (r # rs) = price r
   \<and> \<not> priceLabelShown (topBid []) \<and> \<not> priceLabelShown (topAsk [])
   \<and> (bids = [] \<or> asks = [] \<longrightarrow> spread bids asks = 0)"
  by (auto simp: topBid_def topAsk_def spread_def first_row_def nullish_or_def priceLabelShown_def)

theorem top_of_book_witness:
  "topBid [\<lparr>price = 100, qty = 2, cum = 2\<rparr>] = 100
   \<and> ([] = [] \<or> [\<lparr>price = 101, qty = 1, cum = 1\<rparr>] = ([] :: OrderRow list))
   \<and> spread [] [\<lparr>price = 101, qty = 1, cum = 1\<rparr>] = 0"
  using top_of_book [of "\<lparr>price = 100, qty = 2, cum = 2\<rparr>" "[]" "[]" "[\<lparr>price = 101, qty = 1, cum = 1\<rparr>]"]
  by simp

section \<open>Properties of the address\<close>

lemma sublist_count_le:
  assumes "sublist xs ys"
  shows "count_list xs c \<le> count_list ys c"
proof -
  from assms obtain ps ss where "ys = ps @ xs @ ss"
    by (auto simp: sublist_def)
  then show ?thesis by simp
qed

lemma count_at_depth_topic:
  "count_list (depth_topic s d) CHR ''@'' = count_list s CHR ''@'' + 2"
  by (cases d) (simp_all add: depth_topic_def show_interval_def)

lemma count_at_single_topic:
  "count_list (base @ ''/ws/'' @ s @ ''@aggTrade'') CHR ''@'' = count_list s CHR ''@'' + 1"
  by (simp add: base_def)

text \<open>
  Claim C9, as the specification states it, fails in its conclusion that no depth update is
  delivered in non-combined mode: with \<open>combined\<close> false and a depth callback registered, a
  decoded depth update is handed to the callback.
\<close>
theorem depth_update_delivered_when_not_combined:
  "app (onmessage
          \<lparr>symbol = ''btcusdt'', onAggTrade = None, onDepthUpdate = Some (\<lambda>p n. (None, Suc n)),
           combined = False, depthInterval = Ms100\<rparr>
          (Some (JObj [(''e'', JStr ''depthUpdate''), (''b'', JArr []), (''a'', JArr [])]))
          \<lparr>wsRef = Some 0, backoffRef = 500, closedByUser = False, mounted = True,
           sockets = [\<lparr>url = ''wss://stream.binance.com:9443/ws/btcusdt@aggTrade'',
                      readyState = OPEN\<rparr>],
           timers = [], console = [], app = 0\<rparr>) = Suc 0"
  by (simp add: onmessage_def route_def stream_in_def unwrap_def kind_of_def falsy_def truthy_def
      property_def dispatch_def invoke_def)

text \<open>
  Claim C9, amended. With \<open>combined\<close> false the address is the endpoint, \<open>/ws/\<close>, the
  lower-cased symbol and \<open>@aggTrade\<close>, whatever the lower-casing function does to the
  symbol. It is the same for every depth interval, and the depth topic of the symbol, for
  whatever interval, does not occur in it. The message handler does not look at \<open>combined\<close>:
  it treats every message as it does in combined mode, and a bare depth update that arrives
  is handed to the registered depth callback.
\<close>
theorem non_combined_address:
  "\<not> combined opts \<Longrightarrow>
     createUrl_with lc opts = ''wss://stream.binance.com:9443/ws/'' @ lc (symbol opts) @ ''@aggTrade''
   \<and> createUrl_with lc (opts\<lparr>depthInterval := d\<rparr>) = createUrl_with lc opts
   \<and> \<not> sublist (depth_topic (lc (symbol opts)) d') (createUrl_with lc opts)
   \<and> createUrl opts = createUrl_with toLowerCase opts
   \<and> onmessage opts decoded s = onmessage (opts\<lparr>combined := True\<rparr>) decoded s
   \<and> (''stream'' \<notin> fst ` set fs \<and> map_of fs ''e'' = Some (JStr ''depthUpdate'')
        \<and> onDepthUpdate opts = Some f \<longrightarrow>
        onmessage opts (Some (JObj fs)) s =
          (case f (JObj fs) (app s) of
             (None, a') \<Rightarrow> s\<lparr>app := a'\<rparr>
           | (Some err, a') \<Rightarrow> s\<lparr>app := a', console := console s @ [Error_malformed err]\<rparr>))"
proof -
  assume nc: "\<not> combined opts"
  let ?s = "lc (symbol opts)"
  have u: "createUrl_with lc opts = base @ ''/ws/'' @ ?s @ ''@aggTrade''"
    using nc by (simp add: createUrl_with_def)
  have a: "createUrl_with lc opts = ''wss://stream.binance.com:9443/ws/'' @ ?s @ ''@aggTrade''"
    by (simp add: u base_def)
  have b: "createUrl_with lc (opts\<lparr>depthInterval := d\<rparr>) = createUrl_with lc opts"
    using nc by (simp add: createUrl_with_def)
  have c: "\<not> sublist (depth_topic ?s d') (createUrl_with lc opts)"
  proof
    assume "sublist (depth_topic ?s d') (createUrl_with lc opts)"
    then have "count_list (depth_topic ?s d') CHR ''@''
        \<le> count_list (createUrl_with lc opts) CHR ''@''"
      by (rule sublist_count_le)
    then have "count_list ?s CHR ''@'' + 2 \<le> count_list ?s CHR ''@'' + 1"
      by (simp only: u count_at_depth_topic count_at_single_topic)
    then show False by simp
  qed
  have e: "createUrl opts = createUrl_with toLowerCase opts"
    by (simp add: createUrl_def)
  have dp: "dispatch (opts\<lparr>combined := True\<rparr>) p s = dispatch opts p s" for p
    by (simp add: dispatch_def)
  have r: "route opts decoded s = route (opts\<lparr>combined := True\<rparr>) decoded s"
    by (simp add: route_def dp split: option.splits sum.splits)
  have g: "onmessage opts decoded s = onmessage (opts\<lparr>combined := True\<rparr>) decoded s"
    by (simp add: onmessage_def r)
  have h: "''stream'' \<notin> fst ` set fs \<and> map_of fs ''e'' = Some (JStr ''depthUpdate'')
        \<and> onDepthUpdate opts = Some f \<longrightarrow>
        onmessage opts (Some (JObj fs)) s =
          (case f (JObj fs) (app s) of
             (None, a') \<Rightarrow> s\<lparr>app := a'\<rparr>
           | (Some err, a') \<Rightarrow> s\<lparr>app := a', console := console s @ [Error_malformed err]\<rparr>)"
    by (simp add: onmessage_def route_def stream_in_def unwrap_def kind_of_def falsy_def
        truthy_def property_def dispatch_def invoke_def split: prod.splits option.splits)
  from a b c e g h show ?thesis by blast
qed

theorem non_combined_address_witness:
  "\<not> combined \<lparr>symbol = ''BTCusdt'', onAggTrade = None,
                 onDepthUpdate = Some (\<lambda>p n. (None, Suc n)),
                 combined = False, depthInterval = Ms250\<rparr>
   \<and> createUrl \<lparr>symbol = ''BTCusdt'', onAggTrade = None,
                 onDepthUpdate = Some (\<lambda>p n. (None, Suc n)),
                 combined = False, depthInterval = Ms250\<rparr>
       = ''wss://stream.binance.com:9443/ws/btcusdt@aggTrade''
   \<and> createUrl \<lparr>symbol = ''BTCusdt'', onAggTrade = None,
                 onDepthUpdate = Some (\<lambda>p n. (None, Suc n)),
                 combined = False, depthInterval = Ms500\<rparr>
       = ''wss://stream.binance.com:9443/ws/btcusdt@aggTrade''
   \<and> ''stream'' \<notin> fst ` set [(''e'', JStr ''depthUpdate'')]
   \<and> map_of [(''e'', JStr ''depthUpdate'')] ''e'' = Some (JStr ''depthUpdate'')
   \<and> app (onmessage \<lparr>symbol = ''BTCusdt'', onAggTrade = None,
                 onDepthUpdate = Some (\<lambda>p n. (None, Suc n)),
                 combined = False, depthInterval = Ms250\<rparr>
        (Some (JObj [(''e'', JStr ''depthUpdate'')]))
        \<lparr>wsRef = Some 0, backoffRef = 500, closedByUser = False, mounted = True,
         sockets = [\<lparr>url = ''u'', readyState = OPEN\<rparr>], timers = [], console = [],
         app = 0\<rparr>) = Suc 0"
proof -
  let ?o = "\<lparr>symbol = ''BTCusdt'', onAggTrade = None,
                 onDepthUpdate = Some (\<lambda>p n. (None, Suc n)),
                 combined = False, depthInterval = Ms250\<rparr> :: nat UseBinanceSocketOptions"
  let ?s = "\<lparr>wsRef = Some 0, backoffRef = 500, closedByUser = False, mounted = True,
         sockets = [\<lparr>url = ''u'', readyState = OPEN\<rparr>], timers = [], console = [],
         app = 0\<rparr> :: nat hook_state"
  have l: "toLowerCase ''BTCusdt'' = ''btcusdt''"
    by code_simp
  have n: "\<not> combined ?o"
    by simp
  have k: "''stream'' \<notin> fst ` set [(''e'', JStr ''depthUpdate'')]"
    and m: "map_of [(''e'', JStr ''depthUpdate'')] ''e'' = Some (JStr ''depthUpdate'')"
    by simp_all
  note t = non_combined_address [OF n, of toLowerCase Ms500 Ms100 None ?s
      "[(''e'', JStr ''depthUpdate'')]" "\<lambda>p n. (None, Suc n)"]
  from t l have u1: "createUrl ?o = ''wss://stream.binance.com:9443/ws/btcusdt@aggTrade''"
    by simp
  from t l have u2: "createUrl (?o\<lparr>depthInterval := Ms500\<rparr>)
      = ''wss://stream.binance.com:9443/ws/btcusdt@aggTrade''"
    by (simp add: createUrl_def)
  from t k m have d: "app (onmessage ?o (Some (JObj [(''e'', JStr ''depthUpdate'')])) ?s) = Suc 0"
    by simp
  from n u1 u2 k m d show ?thesis by simp
qed

section \<open>Properties of the message handler\<close>

lemma delays_append: "delays (xs @ ys) = delays xs @ delays ys"
  by (induction xs rule: delays.induct) simp_all

lemma invoke_touches_app_only:
  "snd (invoke cb p s) = s\<lparr>app := app (snd (invoke cb p s))\<rparr>"
  by (simp add: invoke_def split: option.splits prod.splits)

lemma dispatch_touches_app_only:
  "snd (dispatch opts p s) = s\<lparr>app := app (snd (dispatch opts p s))\<rparr>"
  using invoke_touches_app_only [of "onAggTrade opts" p s]
    invoke_touches_app_only [of "onDepthUpdate opts" p s]
  by (simp add: dispatch_def)

lemma route_touches_app_only:
  "snd (route opts decoded s) = s\<lparr>app := app (snd (route opts decoded s))\<rparr>"
  using dispatch_touches_app_only [of opts _ s]
  by (simp add: route_def split: option.splits sum.splits)

text \<open>
  A message changes the caller's state and the console at most: the references, the flags,
  the sockets and the timers of the hook stay as they are.
\<close>

lemma onmessage_frame:
  "\<exists>a c. onmessage opts decoded s = s\<lparr>app := a, console := c\<rparr>
         \<and> delays c = delays (console s)"
proof (cases "route opts decoded s")
  case (Pair err s')
  from route_touches_app_only [of opts decoded s] Pair
  obtain a where s': "s' = s\<lparr>app := a\<rparr>" by auto
  show ?thesis
  proof (cases err)
    case None
    with Pair s' have "onmessage opts decoded s = s\<lparr>app := a, console := console s\<rparr>"
      by (simp add: onmessage_def)
    then show ?thesis by blast
  next
    case (Some e)
    with Pair s' have "onmessage opts decoded s
        = s\<lparr>app := a, console := console s @ [Error_malformed e]\<rparr>"
      by (simp add: onmessage_def)
    moreover have "delays (console s @ [Error_malformed e]) = delays (console s)"
      by (simp add: delays_append)
    ultimately show ?thesis by blast
  qed
qed


text \<open>
  Claim C8, as the specification states it, fails at two decoded messages. The number \<open>42\<close>
  decodes, yet it is not ignored in silence: the test \<open>'stream' in parsed\<close> throws and the
  console records it. The object \<open>{"stream": "s", "e": "aggTrade"}\<close> carries a stream name
  but no nested payload, so it is no envelope in the words of the claim and its kind is
  \<open>aggTrade\<close>; yet the registered trade callback does not run.
\<close>
theorem decoded_number_logged_and_bare_stream_dropped:
  "console (onmessage (default_options :: unit UseBinanceSocketOptions) (Some (JNum 42))
      (mount default_options ())) = [Error_malformed TypeError]
   \<and> onmessage
        \<lparr>symbol = ''btcusdt'', onAggTrade = Some (\<lambda>p n. (None, Suc n)), onDepthUpdate = None,
         combined = True, depthInterval = Ms100\<rparr>
        (Some (JObj [(''stream'', JStr ''s''), (''e'', JStr ''aggTrade'')]))
        \<lparr>wsRef = Some 0, backoffRef = 500, closedByUser = False, mounted = True,
         sockets = [\<lparr>url = ''u'', readyState = OPEN\<rparr>], timers = [], console = [],
         app = 0\<rparr>
      = \<lparr>wsRef = Some 0, backoffRef = 500, closedByUser = False, mounted = True,
         sockets = [\<lparr>url = ''u'', readyState = OPEN\<rparr>], timers = [], console = [],
         app = 0\<rparr>"
  by (simp add: onmessage_def route_def stream_in_def unwrap_def kind_of_def falsy_def
      property_def mount_def connect_def)

text \<open>
  Claim C8, amended. A decoded message that is an object has as payload its \<open>data\<close> property
  when it carries a \<open>stream\<close> property, whether or not \<open>data\<close> is there, and itself
  otherwise. A payload of kind \<open>aggTrade\<close> is handed to \<open>onAggTrade\<close>, one of kind
  \<open>depthUpdate\<close> to \<open>onDepthUpdate\<close>: the registered callback runs on the payload and the
  caller's state, and the handler leaves the state the callback returns (recording on the
  console an exception the callback threw). When the callback is not registered, when the
  kind is any other value, and when the object with a \<open>stream\<close> property has no \<open>data\<close>, the
  handler returns the state it was given: nothing is written to the console and nothing
  changes. A decoded array is ignored in the same way. A decoded \<open>null\<close>, boolean, number or
  string is not: no callback runs, and the console records a \<open>TypeError\<close>.
\<close>
theorem router_dispatch:
  "(if ''stream'' \<in> fst ` set fs then map_of fs ''data'' else Some (JObj fs)) = payload \<Longrightarrow>
     (\<forall>p f. payload = Some p \<and> property p ''e'' = Some (JStr ''aggTrade'')
              \<and> onAggTrade opts = Some f \<longrightarrow>
        onmessage opts (Some (JObj fs)) s =
          (case f p (app s) of
             (None, a') \<Rightarrow> s\<lparr>app := a'\<rparr>
           | (Some err, a') \<Rightarrow> s\<lparr>app := a', console := console s @ [Error_malformed err]\<rparr>))
   \<and> (\<forall>p f. payload = Some p \<and> property p ''e'' = Some (JStr ''depthUpdate'')
              \<and> onDepthUpdate opts = Some f \<longrightarrow>
        onmessage opts (Some (JObj fs)) s =
          (case f p (app s) of
             (None, a') \<Rightarrow> s\<lparr>app := a'\<rparr>
           | (Some err, a') \<Rightarrow> s\<lparr>app := a', console := console s @ [Error_malformed err]\<rparr>))
   \<and> (\<forall>p. payload = Some p \<and> property p ''e'' = Some (JStr ''aggTrade'')
            \<and> onAggTrade opts = None \<longrightarrow>
        onmessage opts (Some (JObj fs)) s = s)
   \<and> (\<forall>p. payload = Some p \<and> property p ''e'' = Some (JStr ''depthUpdate'')
            \<and> onDepthUpdate opts = None \<longrightarrow>
        onmessage opts (Some (JObj fs)) s = s)
   \<and> (\<forall>p. payload = Some p \<and> property p ''e'' \<noteq> Some (JStr ''aggTrade'')
            \<and> property p ''e'' \<noteq> Some (JStr ''depthUpdate'') \<longrightarrow>
        onmessage opts (Some (JObj fs)) s = s)
   \<and> (payload = None \<longrightarrow> onmessage opts (Some (JObj fs)) s = s)
   \<and> onmessage opts (Some (JArr xs)) s = s
   \<and> onmessage opts (Some JNull) s = s\<lparr>console := console s @ [Error_malformed TypeError]\<rparr>
   \<and> onmessage opts (Some (JBool c)) s = s\<lparr>console := console s @ [Error_malformed TypeError]\<rparr>
   \<and> onmessage opts (Some (JNum n)) s = s\<lparr>console := console s @ [Error_malformed TypeError]\<rparr>
   \<and> onmessage opts (Some (JStr t)) s = s\<lparr>console := console s @ [Error_malformed TypeError]\<rparr>"
proof -
  assume pl: "(if ''stream'' \<in> fst ` set fs then map_of fs ''data'' else Some (JObj fs)) = payload"
  have uw: "unwrap (JObj fs) (''stream'' \<in> fst ` set fs) = payload"
    unfolding pl [symmetric] by (simp add: unwrap_def property_def)
  have rt: "route opts (Some (JObj fs)) s =
      (if falsy (kind_of payload) then (None, s)
       else (case payload of None \<Rightarrow> (None, s) | Some p \<Rightarrow> dispatch opts p s))"
    by (simp add: route_def stream_in_def uw)
  have trade: "onmessage opts (Some (JObj fs)) s =
          (case f p (app s) of
             (None, a') \<Rightarrow> s\<lparr>app := a'\<rparr>
           | (Some err, a') \<Rightarrow> s\<lparr>app := a', console := console s @ [Error_malformed err]\<rparr>)"
    if "payload = Some p" "property p ''e'' = Some (JStr ''aggTrade'')" "onAggTrade opts = Some f"
    for p f
    using that
    by (simp add: onmessage_def rt kind_of_def falsy_def truthy_def dispatch_def invoke_def
        split: prod.splits option.splits)
  have depth: "onmessage opts (Some (JObj fs)) s =
          (case f p (app s) of
             (None, a') \<Rightarrow> s\<lparr>app := a'\<rparr>
           | (Some err, a') \<Rightarrow> s\<lparr>app := a', console := console s @ [Error_malformed err]\<rparr>)"
    if "payload = Some p" "property p ''e'' = Some (JStr ''depthUpdate'')" "onDepthUpdate opts = Some f"
    for p f
    using that
    by (simp add: onmessage_def rt kind_of_def falsy_def truthy_def dispatch_def invoke_def
        split: prod.splits option.splits)
  have notrade: "onmessage opts (Some (JObj fs)) s = s"
    if "payload = Some p" "property p ''e'' = Some (JStr ''aggTrade'')" "onAggTrade opts = None"
    for p
    using that
    by (simp add: onmessage_def rt kind_of_def falsy_def truthy_def dispatch_def invoke_def)
  have nodepth: "onmessage opts (Some (JObj fs)) s = s"
    if "payload = Some p" "property p ''e'' = Some (JStr ''depthUpdate'')" "onDepthUpdate opts = None"
    for p
    using that
    by (simp add: onmessage_def rt kind_of_def falsy_def truthy_def dispatch_def invoke_def)
  have other: "onmessage opts (Some (JObj fs)) s = s"
    if "payload = Some p" "property p ''e'' \<noteq> Some (JStr ''aggTrade'')"
       "property p ''e'' \<noteq> Some (JStr ''depthUpdate'')"
    for p
    using that
    by (simp add: onmessage_def rt dispatch_def)
  have nodata: "onmessage opts (Some (JObj fs)) s = s" if "payload = None"
    using that by (simp add: onmessage_def rt)
  have arr: "onmessage opts (Some (JArr xs)) s = s"
    by (simp add: onmessage_def route_def stream_in_def unwrap_def kind_of_def falsy_def
        property_def)
  have prim:
    "onmessage opts (Some JNull) s = s\<lparr>console := console s @ [Error_malformed TypeError]\<rparr>"
    "onmessage opts (Some (JBool c)) s = s\<lparr>console := console s @ [Error_malformed TypeError]\<rparr>"
    "onmessage opts (Some (JNum n)) s = s\<lparr>console := console s @ [Error_malformed TypeError]\<rparr>"
    "onmessage opts (Some (JStr t)) s = s\<lparr>console := console s @ [Error_malformed TypeError]\<rparr>"
    by (simp_all add: onmessage_def route_def stream_in_def)
  from trade depth notrade nodepth other nodata arr prim show ?thesis
    by blast
qed

theorem router_dispatch_witness:
  "(if ''stream'' \<in> fst ` set [(''stream'', JStr ''btcusdt@aggTrade''),
                                 (''data'', JObj [(''e'', JStr ''aggTrade''), (''p'', JStr ''1.5'')])]
    then map_of [(''stream'', JStr ''btcusdt@aggTrade''),
                 (''data'', JObj [(''e'', JStr ''aggTrade''), (''p'', JStr ''1.5'')])] ''data''
    else Some (JObj [(''stream'', JStr ''btcusdt@aggTrade''),
                     (''data'', JObj [(''e'', JStr ''aggTrade''), (''p'', JStr ''1.5'')])]))
     = Some (JObj [(''e'', JStr ''aggTrade''), (''p'', JStr ''1.5'')])
   \<and> app (onmessage
        \<lparr>symbol = ''btcusdt'', onAggTrade = Some (\<lambda>p n. (None, Suc n)), onDepthUpdate = None,
         combined = True, depthInterval = Ms100\<rparr>
        (Some (JObj [(''stream'', JStr ''btcusdt@aggTrade''),
                     (''data'', JObj [(''e'', JStr ''aggTrade''), (''p'', JStr ''1.5'')])]))
        \<lparr>wsRef = Some 0, backoffRef = 500, closedByUser = False, mounted = True,
         sockets = [\<lparr>url = ''u'', readyState = OPEN\<rparr>], timers = [], console = [],
         app = 0\<rparr>) = Suc 0"
proof -
  have h: "(if ''stream'' \<in> fst ` set [(''stream'', JStr ''btcusdt@aggTrade''),
                                 (''data'', JObj [(''e'', JStr ''aggTrade''), (''p'', JStr ''1.5'')])]
    then map_of [(''stream'', JStr ''btcusdt@aggTrade''),
                 (''data'', JObj [(''e'', JStr ''aggTrade''), (''p'', JStr ''1.5'')])] ''data''
    else Some (JObj [(''stream'', JStr ''btcusdt@aggTrade''),
                     (''data'', JObj [(''e'', JStr ''aggTrade''), (''p'', JStr ''1.5'')])]))
     = Some (JObj [(''e'', JStr ''aggTrade''), (''p'', JStr ''1.5'')])"
    by simp
  from router_dispatch [OF h,
      of "\<lparr>symbol = ''btcusdt'', onAggTrade = Some (\<lambda>p n. (None, Suc n)), onDepthUpdate = None,
         combined = True, depthInterval = Ms100\<rparr>"
         "\<lparr>wsRef = Some 0, backoffRef = 500, closedByUser = False, mounted = True,
         sockets = [\<lparr>url = ''u'', readyState = OPEN\<rparr>], timers = [], console = [],
         app = 0\<rparr>"] h
  show ?thesis
    by (simp add: property_def)
qed

lemma onmessage_fields:
  "wsRef (onmessage opts decoded s) = wsRef s"
  "backoffRef (onmessage opts decoded s) = backoffRef s"
  "closedByUser (onmessage opts decoded s) = closedByUser s"
  "mounted (onmessage opts decoded s) = mounted s"
  "sockets (onmessage opts decoded s) = sockets s"
  "timers (onmessage opts decoded s) = timers s"
  "delays (console (onmessage opts decoded s)) = delays (console s)"
proof -
  from onmessage_frame [of opts decoded s] obtain a c
    where eq: "onmessage opts decoded s = s\<lparr>app := a, console := c\<rparr>"
      and d: "delays c = delays (console s)"
    by blast
  show "wsRef (onmessage opts decoded s) = wsRef s" by (simp add: eq)
  show "backoffRef (onmessage opts decoded s) = backoffRef s" by (simp add: eq)
  show "closedByUser (onmessage opts decoded s) = closedByUser s" by (simp add: eq)
  show "mounted (onmessage opts decoded s) = mounted s" by (simp add: eq)
  show "sockets (onmessage opts decoded s) = sockets s" by (simp add: eq)
  show "timers (onmessage opts decoded s) = timers s" by (simp add: eq)
  show "delays (console (onmessage opts decoded s)) = delays (console s)" by (simp add: eq d)
qed

text \<open>
  Claim C4, as the specification states it, fails: the decoded message \<open>{"E": 1}\<close> has no
  event kind, and the handler writes nothing to the console.
\<close>
theorem missing_kind_is_not_reported:
  "console (onmessage (default_options :: unit UseBinanceSocketOptions)
              (Some (JObj [(''E'', JNum 1)])) (mount default_options ())) = []"
  by (simp add: onmessage_def route_def stream_in_def unwrap_def kind_of_def falsy_def property_def
      mount_def connect_def)

text \<open>
  Claim C4, amended. A message that does not decode is recorded on the console as a
  malformed message and dropped, and so is a decoded value that is not an object. A decoded
  message whose payload has no event kind is dropped without a word. In these three cases
  the handler returns, no callback runs, and nothing else changes. Whatever the message, the
  sockets, the references, the flags and the timers of the hook are untouched, so an open
  connection stays open.
\<close>
theorem malformed_message_handling:
  "onmessage opts None s = s\<lparr>console := console s @ [Error_malformed SyntaxError]\<rparr>
   \<and> (stream_in v = Inl err \<longrightarrow>
        onmessage opts (Some v) s = s\<lparr>console := console s @ [Error_malformed err]\<rparr>)
   \<and> (stream_in v = Inr enveloped \<and> kind_of (unwrap v enveloped) = None \<longrightarrow>
        onmessage opts (Some v) s = s)
   \<and> sockets (onmessage opts decoded s) = sockets s
   \<and> wsRef (onmessage opts decoded s) = wsRef s
   \<and> backoffRef (onmessage opts decoded s) = backoffRef s
   \<and> closedByUser (onmessage opts decoded s) = closedByUser s
   \<and> mounted (onmessage opts decoded s) = mounted s
   \<and> timers (onmessage opts decoded s) = timers s"
proof -
  have a: "onmessage opts None s = s\<lparr>console := console s @ [Error_malformed SyntaxError]\<rparr>"
    by (simp add: onmessage_def route_def)
  have b: "stream_in v = Inl err \<longrightarrow>
        onmessage opts (Some v) s = s\<lparr>console := console s @ [Error_malformed err]\<rparr>"
    by (simp add: onmessage_def route_def)
  have c: "stream_in v = Inr enveloped \<and> kind_of (unwrap v enveloped) = None \<longrightarrow>
        onmessage opts (Some v) s = s"
    by (simp add: onmessage_def route_def falsy_def)
  from a b c onmessage_fields [of opts decoded s] show ?thesis
    by blast
qed

theorem malformed_message_handling_witness:
  "stream_in (JNum 42) = Inl TypeError
   \<and> console (onmessage (default_options :: unit UseBinanceSocketOptions) (Some (JNum 42))
        (mount default_options ())) = [Error_malformed TypeError]
   \<and> stream_in (JObj [(''E'', JNum 1)]) = Inr False
   \<and> kind_of (unwrap (JObj [(''E'', JNum 1)]) False) = None
   \<and> onmessage (default_options :: unit UseBinanceSocketOptions) (Some (JObj [(''E'', JNum 1)]))
        (mount default_options ()) = mount default_options ()"
proof -
  have t: "stream_in (JNum 42) = Inl TypeError"
    by (simp add: stream_in_def)
  have o: "stream_in (JObj [(''E'', JNum 1)]) = Inr False"
    by (simp add: stream_in_def)
  have k: "kind_of (unwrap (JObj [(''E'', JNum 1)]) False) = None"
    by (simp add: kind_of_def unwrap_def property_def)
  have m: "console (mount (default_options :: unit UseBinanceSocketOptions) ()) = []"
    by (simp add: mount_def connect_def)
  from t m malformed_message_handling
      [of "default_options :: unit UseBinanceSocketOptions" "mount default_options ()"
          "JNum 42" TypeError]
  have r1: "console (onmessage (default_options :: unit UseBinanceSocketOptions) (Some (JNum 42))
        (mount default_options ())) = [Error_malformed TypeError]"
    by simp
  from o k malformed_message_handling
      [of "default_options :: unit UseBinanceSocketOptions" "mount default_options ()"
          "JObj [(''E'', JNum 1)]" _ False]
  have r2: "onmessage (default_options :: unit UseBinanceSocketOptions) (Some (JObj [(''E'', JNum 1)]))
        (mount default_options ()) = mount default_options ()"
    by blast
  from t o k r1 r2 show ?thesis by blast
qed

section \<open>Properties of the reconnect logic\<close>

lemma run_Cons: "run opts s (e # es) = run opts (step opts s e) es"
  by (simp add: run_def)

lemma run_Nil: "run opts s [] = s"
  by (simp add: run_def)

lemma step_keeps_flags:
  assumes "no_open_no_shutdown e"
  shows "closedByUser (step opts s e) = closedByUser s \<and> mounted (step opts s e) = mounted s"
proof (cases e)
  case (WsMessage i decoded)
  then show ?thesis by (simp add: onmessage_fields)
next
  case (WsClose i)
  then show ?thesis by (simp add: onclose_def set_readyState_def Let_def)
next
  case TimerFired
  then show ?thesis by (simp add: connect_def split: list.splits)
qed (use assms in \<open>simp_all add: onerror_def\<close>)

lemma step_failure:
  assumes "\<not> closedByUser s" and "mounted s"
  shows "backoffRef (step opts s (WsClose i)) = min (backoffRef s * (9 / 5)) 30000"
    and "delays (console (step opts s (WsClose i))) = delays (console s) @ [backoffRef s]"
    and "timers (step opts s (WsClose i)) = timers s @ [backoffRef s]"
  using assms by (simp_all add: onclose_def set_readyState_def Let_def delays_append)

lemma step_no_failure:
  assumes "no_open_no_shutdown e" and "\<not> is_failure e"
  shows "backoffRef (step opts s e) = backoffRef s
       \<and> delays (console (step opts s e)) = delays (console s)"
proof (cases e)
  case (WsMessage i decoded)
  then show ?thesis by (simp add: onmessage_fields)
next
  case (WsError i)
  then show ?thesis by (simp add: onerror_def delays_append)
next
  case TimerFired
  then show ?thesis by (simp add: connect_def split: list.splits)
qed (use assms in simp_all)

lemma step_open:
  "backoffRef (step opts s (WsOpen i)) = 500"
  "closedByUser (step opts s (WsOpen i)) = closedByUser s"
  "mounted (step opts s (WsOpen i)) = mounted s"
  "delays (console (step opts s (WsOpen i))) = delays (console s)"
  by (simp_all add: onopen_def set_readyState_def delays_append)

lemma capped_growth:
  fixes x :: rat
  assumes "0 \<le> x"
  shows "min (min x 30000 * (9 / 5)) 30000 = min (x * (9 / 5)) 30000"
  using assms by (simp add: min_def)

lemma backoff_trace:
  assumes "backoffRef s = min (500 * (9 / 5) ^ k) 30000"
    and "\<not> closedByUser s" and "mounted s"
    and "list_all no_open_no_shutdown tr"
  shows "delays (console (run opts s tr))
       = delays (console s)
         @ map (\<lambda>n. min (500 * (9 / 5) ^ n) 30000) [k..<k + length (filter is_failure tr)]"
  using assms
proof (induction tr arbitrary: s k)
  case Nil
  then show ?case by (simp add: run_Nil)
next
  case (Cons e tr)
  from Cons.prems have e: "no_open_no_shutdown e" and tr: "list_all no_open_no_shutdown tr"
    by simp_all
  from step_keeps_flags [OF e, of opts s] Cons.prems
  have fl: "\<not> closedByUser (step opts s e)" "mounted (step opts s e)"
    by simp_all
  show ?case
  proof (cases "is_failure e")
    case True
    then obtain i where ei: "e = WsClose i" by (cases e) simp_all
    have "(0::rat) \<le> 500 * (9 / 5) ^ k" by simp
    from capped_growth [OF this]
    have b: "backoffRef (step opts s e) = min (500 * (9 / 5) ^ Suc k) 30000"
      using step_failure(1) [OF Cons.prems(2,3), of opts i] Cons.prems(1) ei
      by (simp add: mult.assoc mult.commute)
    have d: "delays (console (step opts s e))
           = delays (console s) @ [min (500 * (9 / 5) ^ k) 30000]"
      using step_failure(2) [OF Cons.prems(2,3), of opts i] Cons.prems(1) ei by simp
    let ?f = "\<lambda>n. min (500 * (9 / 5) ^ n) (30000::rat)"
    let ?N = "length (filter is_failure tr)"
    have len: "length (filter is_failure (e # tr)) = Suc ?N"
      using True by simp
    have upt: "[k..<k + Suc ?N] = k # [Suc k..<Suc k + ?N]"
      by (simp add: upt_conv_Cons del: upt_Suc)
    have "delays (console (run opts s (e # tr)))
        = (delays (console s) @ [?f k]) @ map ?f [Suc k..<Suc k + ?N]"
      using Cons.IH [OF b fl tr] d by (simp only: run_Cons)
    also have "\<dots> = delays (console s) @ map ?f [k..<k + length (filter is_failure (e # tr))]"
      by (simp only: len upt) simp
    finally show ?thesis .
  next
    case False
    from step_no_failure [OF e False, of opts s] Cons.prems(1)
    have b: "backoffRef (step opts s e) = min (500 * (9 / 5) ^ k) 30000"
      and d: "delays (console (step opts s e)) = delays (console s)"
      by simp_all
    from Cons.IH [OF b fl tr] d False show ?thesis
      by (simp add: run_Cons)
  qed
qed

text \<open>
  Claim C2. Take a mounted hook that was not shut down, and any sequence of events without a
  successful open and without a shutdown; \<open>N\<close> of them are connection failures. If the
  back-off is 500 at the start, as it is after mounting, the delays scheduled are
  \<open>min (500 \<times> 1.8^(n-1)) 30000\<close> for \<open>n = 1, \<dots>, N\<close>, in this order. The same holds, whatever
  the back-off was, when the sequence follows a successful open: the first failure after an
  open waits 500 again. Each delay is both announced on the console and handed to the timer.
\<close>
theorem backoff_schedule:
  "\<not> closedByUser s \<Longrightarrow> mounted s \<Longrightarrow> list_all no_open_no_shutdown tr \<Longrightarrow>
     (backoffRef s = 500 \<longrightarrow>
        delays (console (run opts s tr))
          = delays (console s)
            @ map (\<lambda>n. min (500 * (9 / 5) ^ (n - 1)) 30000) [1..<Suc (length (filter is_failure tr))])
   \<and> delays (console (run opts s (WsOpen i # tr)))
          = delays (console s)
            @ map (\<lambda>n. min (500 * (9 / 5) ^ (n - 1)) 30000) [1..<Suc (length (filter is_failure tr))]
   \<and> timers (step opts s (WsClose j)) = timers s @ [backoffRef s]
   \<and> delays (console (step opts s (WsClose j))) = delays (console s) @ [backoffRef s]
   \<and> timers (step opts (step opts s (WsOpen i)) (WsClose j)) = timers s @ [500]"
proof -
  assume c: "\<not> closedByUser s" and m: "mounted s" and tr: "list_all no_open_no_shutdown tr"
  let ?N = "length (filter is_failure tr)"
  have shift: "map (\<lambda>n. min (500 * (9 / 5) ^ (n - 1)) (30000::rat)) [1..<Suc ?N]
             = map (\<lambda>n. min (500 * (9 / 5) ^ n) 30000) [0..<0 + ?N]"
    by (simp add: map_Suc_upt [symmetric] del: upt_Suc)
  have a: "backoffRef s = 500 \<longrightarrow>
        delays (console (run opts s tr))
          = delays (console s)
            @ map (\<lambda>n. min (500 * (9 / 5) ^ (n - 1)) 30000) [1..<Suc ?N]"
  proof
    assume "backoffRef s = 500"
    then have "backoffRef s = min (500 * (9 / 5) ^ 0) 30000" by simp
    from backoff_trace [OF this c m tr] show "delays (console (run opts s tr))
          = delays (console s)
            @ map (\<lambda>n. min (500 * (9 / 5) ^ (n - 1)) 30000) [1..<Suc ?N]"
      by (simp only: shift)
  qed
  let ?s = "step opts s (WsOpen i)"
  have "backoffRef ?s = 500"
    by (rule step_open)
  then have "backoffRef ?s = min (500 * (9 / 5) ^ 0) 30000"
    by simp
  moreover have "\<not> closedByUser ?s" "mounted ?s"
    using c m by (simp_all add: step_open del: step.simps)
  ultimately have "delays (console (run opts ?s tr))
          = delays (console ?s) @ map (\<lambda>n. min (500 * (9 / 5) ^ n) 30000) [0..<0 + ?N]"
    using tr by (rule backoff_trace)
  then have b: "delays (console (run opts s (WsOpen i # tr)))
          = delays (console s)
            @ map (\<lambda>n. min (500 * (9 / 5) ^ (n - 1)) 30000) [1..<Suc ?N]"
    by (simp only: shift run_Cons step_open)
  have t: "timers (step opts s (WsClose j)) = timers s @ [backoffRef s]"
    using c m by (rule step_failure)
  have d: "delays (console (step opts s (WsClose j))) = delays (console s) @ [backoffRef s]"
    using c m by (rule step_failure)
  have "timers (step opts ?s (WsClose j)) = timers ?s @ [backoffRef ?s]"
    using \<open>\<not> closedByUser ?s\<close> \<open>mounted ?s\<close> by (rule step_failure)
  then have r: "timers (step opts ?s (WsClose j)) = timers s @ [500]"
    by (simp add: onopen_def set_readyState_def)
  from a b t d r show ?thesis by blast
qed

theorem backoff_schedule_witness:
  "\<not> closedByUser (mount (default_options :: unit UseBinanceSocketOptions) ())
   \<and> mounted (mount (default_options :: unit UseBinanceSocketOptions) ())
   \<and> list_all no_open_no_shutdown
         [WsClose 0, TimerFired, WsClose 1, TimerFired, WsClose 2, TimerFired, WsClose 3]
   \<and> backoffRef (mount (default_options :: unit UseBinanceSocketOptions) ()) = 500
   \<and> delays (console (run default_options (mount (default_options :: unit UseBinanceSocketOptions) ())
         [WsClose 0, TimerFired, WsClose 1, TimerFired, WsClose 2, TimerFired, WsClose 3]))
       = [500, 900, 1620, 2916]
   \<and> delays (console (run default_options (mount (default_options :: unit UseBinanceSocketOptions) ())
         [WsOpen 0, WsClose 0])) = [500]"
proof -
  let ?s = "mount (default_options :: unit UseBinanceSocketOptions) ()"
  have c: "\<not> closedByUser ?s" and m: "mounted ?s" and b: "backoffRef ?s = 500"
    and d: "delays (console ?s) = []"
    by (simp_all add: mount_def connect_def)
  have t: "list_all no_open_no_shutdown
         [WsClose 0, TimerFired, WsClose 1, TimerFired, WsClose 2, TimerFired, WsClose 3]"
    by simp
  have t1: "list_all no_open_no_shutdown [WsClose 0]"
    by simp
  have v: "map (\<lambda>n. min (500 * (9 / 5) ^ (n - 1)) (30000::rat))
         [1..<Suc (length (filter is_failure
            [WsClose 0, TimerFired, WsClose 1, TimerFired, WsClose 2, TimerFired, WsClose 3]))]
       = [500, 900, 1620, 2916]"
    by code_simp
  have v1: "map (\<lambda>n. min (500 * (9 / 5) ^ (n - 1)) (30000::rat))
         [1..<Suc (length (filter is_failure [WsClose 0]))] = [500]"
    by code_simp
  from backoff_schedule [OF c m t, of default_options 0 0] b
  have r: "delays (console (run default_options ?s
         [WsClose 0, TimerFired, WsClose 1, TimerFired, WsClose 2, TimerFired, WsClose 3]))
       = [500, 900, 1620, 2916]"
    by (simp only: d v append_Nil)
  from backoff_schedule [OF c m t1, of default_options 0 0]
  have r1: "delays (console (run default_options ?s [WsOpen 0, WsClose 0])) = [500]"
    by (simp only: d v1 append_Nil)
  from c m t b r r1 show ?thesis by blast
qed

lemma close_keeps_timers:
  "timers (close s) = timers s \<and> mounted (close s) = mounted s
   \<and> length (sockets (close s)) = length (sockets s) \<and> closedByUser (close s)"
  by (simp add: close_def ws_close_def set_readyState_def Let_def split: option.splits)

text \<open>
  Whatever the state, a timer that is pending when \<open>close()\<close> is called still opens a socket
  when it fires, as long as the effect has not been cleaned up.
\<close>
lemma pending_timer_survives_close:
  assumes "mounted s" and "timers s \<noteq> []"
  shows "length (sockets (run opts s [CloseCalled, TimerFired])) = Suc (length (sockets s))"
proof -
  from assms close_keeps_timers [of s]
  obtain t ts where "timers (close s) = t # ts" and "mounted (close s)"
    and "length (sockets (close s)) = length (sockets s)"
    by (cases "timers s") auto
  then show ?thesis
    by (simp add: run_def connect_def)
qed

lemma unmounted_step:
  assumes "\<not> mounted s"
  shows "\<not> mounted (step opts s e) \<and> length (sockets (step opts s e)) = length (sockets s)"
proof (cases e)
  case (WsMessage i decoded)
  with assms show ?thesis by (simp add: onmessage_fields)
next
  case (WsClose i)
  with assms show ?thesis by (simp add: onclose_def set_readyState_def Let_def)
next
  case TimerFired
  with assms show ?thesis by (simp add: connect_def split: list.splits)
next
  case CloseCalled
  with assms show ?thesis using close_keeps_timers [of s] by simp
next
  case EffectCleanup
  with assms show ?thesis
    by (simp add: cleanup_def ws_close_def set_readyState_def Let_def split: option.splits)
qed (use assms in \<open>simp_all add: onopen_def onerror_def set_readyState_def\<close>)

lemma unmounted_run:
  "\<not> mounted s \<Longrightarrow> length (sockets (run opts s tr)) = length (sockets s)"
proof (induction tr arbitrary: s)
  case Nil
  then show ?case by (simp add: run_Nil)
next
  case (Cons e tr)
  from unmounted_step [OF Cons.prems, of opts e] Cons.IH [of "step opts s e"]
  show ?case by (simp add: run_Cons)
qed

text \<open>
  The clean-up of the effect does silence the timers: after it, no sequence of events opens
  a socket.
\<close>
lemma cleanup_stops_connecting:
  "length (sockets (run opts (cleanup s) tr)) = length (sockets s)"
proof -
  have "\<not> mounted (cleanup s)" and "length (sockets (cleanup s)) = length (sockets s)"
    by (simp_all add: cleanup_def ws_close_def set_readyState_def Let_def split: option.splits)
  with unmounted_run [of "cleanup s" opts tr] show ?thesis by simp
qed

text \<open>
  Claim C1 does not hold of the code. The first socket fails, so a reconnect is scheduled;
  the caller then calls \<open>close()\<close>; the timer fires and \<open>connect\<close>, which looks at \<open>mounted\<close>
  only, opens a second socket.
\<close>
theorem close_leaves_pending_reconnect_alive:
  "timers (run default_options (mount default_options ()) [WsClose 0]) = [500]
   \<and> closedByUser (run default_options (mount default_options ()) [WsClose 0, CloseCalled])
   \<and> map readyState (sockets (run default_options (mount default_options ())
        [WsClose 0, CloseCalled])) = [CLOSED]
   \<and> map readyState (sockets (run default_options (mount default_options ())
        [WsClose 0, CloseCalled, TimerFired])) = [CLOSED, CONNECTING]
   \<and> wsRef (run default_options (mount default_options ())
        [WsClose 0, CloseCalled, TimerFired]) = Some 1"
  by (simp add: run_def mount_def connect_def onclose_def set_readyState_def close_def Let_def)

end
